theory Spec2Isabelle
  imports Main "HOL-Library.Sublist"
begin

section \<open>Parsed markup\<close>

text \<open>
  The scraper works on the tree that BeautifulSoup builds: tags with a name, an attribute
  dictionary and a list of children, and text leaves. Of the attributes the code reads only
  \<^verbatim>\<open>class\<close> (a list of class names, or no such attribute) and \<^verbatim>\<open>href\<close>
  (a string, or no such attribute), so a tag carries these two. The \<^verbatim>\<open>BeautifulSoup\<close>
  object itself is a tag named \<^verbatim>\<open>[document]\<close> whose children are the top-level nodes.
  Characters are single bytes; the strings of the examples are ASCII.
\<close>

datatype node =
    NavigableString string
  | Tag string "string list option" "string option" "node list"

fun name :: "node \<Rightarrow> string" where
  "name (Tag n c h ks) = n"
| "name (NavigableString s) = []"

fun class_attr :: "node \<Rightarrow> string list option" where
  "class_attr (Tag n c h ks) = c"
| "class_attr (NavigableString s) = None"

fun href_attr :: "node \<Rightarrow> string option" where
  "href_attr (Tag n c h ks) = h"
| "href_attr (NavigableString s) = None"

fun contents :: "node \<Rightarrow> node list" where
  "contents (Tag n c h ks) = ks"
| "contents (NavigableString s) = []"

text \<open>\<^verbatim>\<open>element.get('class', [])\<close>: the class list, the empty list without the attribute.\<close>

definition get_class :: "node \<Rightarrow> string list" where
  "get_class e = (case class_attr e of None \<Rightarrow> [] | Some cs \<Rightarrow> cs)"

subsection \<open>Document order\<close>

text \<open>
  \<open>tags_of t\<close> lists the tag \<open>t\<close> and every tag below it in document order (pre-order);
  text leaves are not tags. \<^verbatim>\<open>t.find_all(...)\<close> searches the descendants of \<open>t\<close>, not
  \<open>t\<close> itself: \<open>descendants t\<close>.
\<close>

fun tags_of :: "node \<Rightarrow> node list" and tags_of_list :: "node list \<Rightarrow> node list" where
  "tags_of (NavigableString s) = []"
| "tags_of (Tag n c h ks) = Tag n c h ks # tags_of_list ks"
| "tags_of_list [] = []"
| "tags_of_list (k # ks) = tags_of k @ tags_of_list ks"

definition descendants :: "node \<Rightarrow> node list" where
  "descendants t = tags_of_list (contents t)"

text \<open>\<^verbatim>\<open>t.find_all(names)\<close> and \<^verbatim>\<open>t.find(name)\<close> (the first match, or None).\<close>

definition find_all :: "string list \<Rightarrow> node \<Rightarrow> node list" where
  "find_all names t = filter (\<lambda>e. name e \<in> set names) (descendants t)"

definition find_tag :: "string \<Rightarrow> node \<Rightarrow> node option" where
  "find_tag n t = (case find_all [n] t of [] \<Rightarrow> None | e # es \<Rightarrow> Some e)"

text \<open>
  A tag of a document is referred to by its path: the child indices from the root.
  \<open>enum_node p t\<close> is \<open>tags_of t\<close> with the path of each tag, for \<open>t\<close> at path \<open>p\<close>.
\<close>

type_synonym path = "nat list"

fun enum_node :: "path \<Rightarrow> node \<Rightarrow> (path \<times> node) list"
  and enum_list :: "path \<Rightarrow> nat \<Rightarrow> node list \<Rightarrow> (path \<times> node) list" where
  "enum_node p (NavigableString s) = []"
| "enum_node p (Tag n c h ks) = (p, Tag n c h ks) # enum_list p 0 ks"
| "enum_list p i [] = []"
| "enum_list p i (k # ks) = enum_node (p @ [i]) k @ enum_list p (Suc i) ks"

text \<open>\<^verbatim>\<open>soup.find_all(name)\<close> with paths: the matching tags below the root, in document order.\<close>

definition soup_find_all :: "string list \<Rightarrow> node \<Rightarrow> (path \<times> node) list" where
  "soup_find_all names soup =
     filter (\<lambda>(p, e). name e \<in> set names) (enum_list [] 0 (contents soup))"

text \<open>
  \<^verbatim>\<open>header.find_next('ul')\<close> walks \<^verbatim>\<open>next_elements\<close>: everything that starts after
  the header's opening tag in document order, the header's own descendants included.
\<close>

definition find_next :: "string \<Rightarrow> node \<Rightarrow> path \<Rightarrow> node option" where
  "find_next n soup p =
     (case filter (\<lambda>(q, e). name e = n) (drop 1 (dropWhile (\<lambda>(q, e). q \<noteq> p) (enum_node [] soup))) of
        [] \<Rightarrow> None
      | (q, e) # rest \<Rightarrow> Some e)"

text \<open>\<^verbatim>\<open>header.parent\<close>: the path without its last index.\<close>

definition parent :: "path \<Rightarrow> path" where
  "parent p = butlast p"

subsection \<open>Text\<close>

text \<open>
  A character of the model is a code point below 256. \<^verbatim>\<open>str.strip()\<close> removes leading
  and trailing whitespace, the characters for which \<^verbatim>\<open>str.isspace\<close> holds: below 256
  these are tab, line feed, vertical tab, form feed, carriage return, the four separators
  0x1C to 0x1F, the space, the next-line control 0x85 and the no-break space 0xA0.
  Python's other whitespace (U+1680, U+2000 to U+200A, U+2028, U+2029, U+202F, U+205F,
  U+3000) lies above 255: texts with code points above 255 are outside the model.
\<close>

definition isspace :: "char \<Rightarrow> bool" where
  "isspace c = (c \<in> set [CHR 0x09, CHR 0x0A, CHR 0x0B, CHR 0x0C, CHR 0x0D,
                          CHR 0x1C, CHR 0x1D, CHR 0x1E, CHR 0x1F, CHR 0x20,
                          CHR 0x85, CHR 0xA0])"

definition strip :: "string \<Rightarrow> string" where
  "strip s = rev (dropWhile isspace (rev (dropWhile isspace s)))"

text \<open>The text leaves below a node, in document order.\<close>

fun strings_of :: "node \<Rightarrow> string list" and strings_of_list :: "node list \<Rightarrow> string list" where
  "strings_of (NavigableString s) = [s]"
| "strings_of (Tag n c h ks) = strings_of_list ks"
| "strings_of_list [] = []"
| "strings_of_list (k # ks) = strings_of k @ strings_of_list ks"

text \<open>
  \<^verbatim>\<open>get_text()\<close> joins the text leaves; \<^verbatim>\<open>get_text(strip=True)\<close> strips each leaf,
  drops the leaves that are empty then, and joins the rest.
\<close>

definition get_text :: "node \<Rightarrow> string" where
  "get_text e = concat (strings_of e)"

definition get_text_strip :: "node \<Rightarrow> string" where
  "get_text_strip e = concat (filter (\<lambda>s. s \<noteq> []) (map strip (strings_of e)))"


text \<open>\<^verbatim>\<open>sub in s\<close> on strings: \<open>sub\<close> occurs in \<open>s\<close> as a contiguous piece.\<close>

fun py_in :: "string \<Rightarrow> string \<Rightarrow> bool" where
  "py_in sub [] = (sub = [])"
| "py_in sub (c # cs) = (prefix sub (c # cs) \<or> py_in sub cs)"

text \<open>
  \<^verbatim>\<open>s.replace(old, new)\<close>: every occurrence of \<open>old\<close>, found from the left and not
  overlapping, becomes \<open>new\<close>. With an empty \<open>old\<close> Python puts \<open>new\<close> before every
  character and at the end.
\<close>

fun replace_from :: "string \<Rightarrow> string \<Rightarrow> string \<Rightarrow> string" where
  "replace_from old new [] = []"
| "replace_from old new (c # cs) =
     (if prefix old (c # cs) then new @ replace_from old new (drop (length old - 1) cs)
      else c # replace_from old new cs)"

definition py_replace :: "string \<Rightarrow> string \<Rightarrow> string \<Rightarrow> string" where
  "py_replace old new s =
     (if old = [] then new @ concat (map (\<lambda>c. c # new) s) else replace_from old new s)"

text \<open>\<^verbatim>\<open>sep.join(xs)\<close>.\<close>

fun join :: "string \<Rightarrow> string list \<Rightarrow> string" where
  "join sep [] = []"
| "join sep [x] = x"
| "join sep (x # y # ys) = x @ sep @ join sep (y # ys)"

definition nl :: string where
  "nl = [CHR 0x0A]"

section \<open>Section Locator: \<^verbatim>\<open>find_topic_section\<close>\<close>

text \<open>
  The three entries of \<^verbatim>\<open>patterns\<close> are dictionaries told apart by their key
  (\<^verbatim>\<open>'headers'\<close>, \<^verbatim>\<open>'lists'\<close>, \<^verbatim>\<open>'container'\<close>); here a datatype with the
  values each entry holds.
\<close>

datatype pattern =
    Headers "string list" nat
  | Lists string nat
  | Container "string list"

definition patterns :: "pattern list" where
  "patterns =
     [Headers [''h2'', ''h3''] 3,
      Lists ''ul'' 5,
      Container [''post-content'', ''entry-content'', ''article-content'']]"

text \<open>\<^verbatim>\<open>next_ul and len(next_ul.find_all('a')) >= min_links\<close> for the header at path \<open>p\<close>.\<close>

definition header_has_links :: "node \<Rightarrow> nat \<Rightarrow> path \<Rightarrow> bool" where
  "header_has_links soup min_links p =
     (case find_next ''ul'' soup p of
        None \<Rightarrow> False
      | Some next_ul \<Rightarrow> min_links \<le> length (find_all [''a''] next_ul))"

text \<open>\<^verbatim>\<open>for header in headers\<close>, returning at the first header that passes.\<close>

fun scan_headers :: "node \<Rightarrow> nat \<Rightarrow> (path \<times> node) list \<Rightarrow> path option" where
  "scan_headers soup min_links [] = None"
| "scan_headers soup min_links ((p, header) # headers) =
     (if header_has_links soup min_links p then Some (parent p)
      else scan_headers soup min_links headers)"

text \<open>\<^verbatim>\<open>for header_tag in pattern['headers']\<close>: all headers of one tag before the next tag.\<close>

fun scan_header_tags :: "node \<Rightarrow> nat \<Rightarrow> string list \<Rightarrow> path option" where
  "scan_header_tags soup min_links [] = None"
| "scan_header_tags soup min_links (header_tag # tags) =
     (case scan_headers soup min_links (soup_find_all [header_tag] soup) of
        Some r \<Rightarrow> Some r
      | None \<Rightarrow> scan_header_tags soup min_links tags)"

text \<open>\<^verbatim>\<open>for ul in lists\<close>.\<close>

fun scan_lists :: "nat \<Rightarrow> (path \<times> node) list \<Rightarrow> path option" where
  "scan_lists min_links [] = None"
| "scan_lists min_links ((p, ul) # uls) =
     (if min_links \<le> length (find_all [''a''] ul) then Some (parent p)
      else scan_lists min_links uls)"

text \<open>
  \<^verbatim>\<open>soup.find('div', class_=class_name)\<close>: the first \<^verbatim>\<open>div\<close> in document order that
  has \<open>class_name\<close> among its classes.
\<close>

definition soup_find_div :: "string \<Rightarrow> node \<Rightarrow> (path \<times> node) option" where
  "soup_find_div class_name soup =
     (case filter (\<lambda>(p, e). name e = ''div'' \<and> class_name \<in> set (get_class e))
             (enum_list [] 0 (contents soup)) of
        [] \<Rightarrow> None
      | x # xs \<Rightarrow> Some x)"

text \<open>\<^verbatim>\<open>for class_name in pattern['container']\<close>.\<close>

fun scan_containers :: "node \<Rightarrow> string list \<Rightarrow> path option" where
  "scan_containers soup [] = None"
| "scan_containers soup (class_name # cns) =
     (case soup_find_div class_name soup of
        None \<Rightarrow> scan_containers soup cns
      | Some (p, container) \<Rightarrow>
          (if find_all [''a''] container \<noteq> [] then Some p else scan_containers soup cns))"

fun try_pattern :: "node \<Rightarrow> pattern \<Rightarrow> path option" where
  "try_pattern soup (Headers tags min_links) = scan_header_tags soup min_links tags"
| "try_pattern soup (Lists tag min_links) = scan_lists min_links (soup_find_all [''ul''] soup)"
| "try_pattern soup (Container cns) = scan_containers soup cns"

text \<open>\<^verbatim>\<open>for pattern in patterns\<close>; falling out of the loop is \<^verbatim>\<open>return None\<close>.\<close>

fun scan_patterns :: "node \<Rightarrow> pattern list \<Rightarrow> path option" where
  "scan_patterns soup [] = None"
| "scan_patterns soup (pattern # ps) =
     (case try_pattern soup pattern of
        Some r \<Rightarrow> Some r
      | None \<Rightarrow> scan_patterns soup ps)"

definition find_topic_section :: "node \<Rightarrow> path option" where
  "find_topic_section soup = scan_patterns soup patterns"

section \<open>Article Formatter: \<^verbatim>\<open>extract_article_content\<close>\<close>

text \<open>
  Every \<^verbatim>\<open>markdown_content.append(f"...")\<close> of the source appends one fragment. The
  fragments keep their kind here, and \<open>render\<close> is the f-string of each kind, so that the
  fenced blocks of an output can be told from a paragraph that happens to look like one.
\<close>

datatype fragment =
    Heading nat string
  | Paragraph string
  | Fence "string option" string
  | ListStart
  | Bullet string

fun render :: "fragment \<Rightarrow> string" where
  "render (Heading level text) = nl @ replicate level (CHR ''#'') @ '' '' @ text @ nl"
| "render (Paragraph text) = nl @ text @ nl"
| "render (Fence language code) =
     nl @ ''```'' @ (case language of None \<Rightarrow> [] | Some l \<Rightarrow> l) @ nl @ code @ nl @ ''```'' @ nl"
| "render ListStart = nl"
| "render (Bullet text) = ''- '' @ text @ nl"

fun is_fence :: "fragment \<Rightarrow> bool" where
  "is_fence (Fence language code) = True"
| "is_fence f = False"

record fmt_state =
  markdown_content :: "fragment list"
  in_code_block :: bool
  current_code_block :: "string list"
  current_language :: "string option"

definition init_state :: fmt_state where
  "init_state =
     \<lparr>markdown_content = [], in_code_block = False, current_code_block = [],
      current_language = None\<rparr>"

text \<open>
  The block that the heading, paragraph and list branches each start with:
  \<^verbatim>\<open>if in_code_block and current_code_block:\<close> append the fence, empty the buffer, close.
\<close>

definition close_code_block :: "fmt_state \<Rightarrow> fmt_state" where
  "close_code_block st =
     (if in_code_block st \<and> current_code_block st \<noteq> []
      then st\<lparr>markdown_content :=
                 markdown_content st @ [Fence (current_language st) (concat (current_code_block st))],
              current_code_block := [],
              in_code_block := False\<rparr>
      else st)"

text \<open>The test of the code branch.\<close>

definition is_code_element :: "node \<Rightarrow> bool" where
  "is_code_element element =
     (name element \<in> set [''pre'', ''code'']
      \<or> (name element = ''div'' \<and> ''code'' \<in> set (get_class element)))"

text \<open>The language of one element: the first class that contains \<^verbatim>\<open>language-\<close>, with
  every \<^verbatim>\<open>language-\<close> removed from it.\<close>

definition detect_language :: "node \<Rightarrow> string option" where
  "detect_language element =
     (case class_attr element of
        None \<Rightarrow> None
      | Some classes \<Rightarrow>
          (case filter (py_in ''language-'') classes of
             [] \<Rightarrow> None
           | c # cs \<Rightarrow> Some (py_replace ''language-'' [] c)))"

text \<open>\<^verbatim>\<open>int(element.name[1]) + 1\<close> for the names \<^verbatim>\<open>h2\<close>, \<^verbatim>\<open>h3\<close>, \<^verbatim>\<open>h4\<close>.\<close>

definition heading_level :: "string \<Rightarrow> nat" where
  "heading_level n = (of_char (n ! 1) - 48) + 1"

text \<open>One pass of the loop body \<^verbatim>\<open>for element in elements\<close>.\<close>

definition step :: "fmt_state \<Rightarrow> node \<Rightarrow> fmt_state" where
  "step st element =
     (if name element \<in> set [''h2'', ''h3'', ''h4''] then
        (let st1 = close_code_block st
         in st1\<lparr>markdown_content :=
                  markdown_content st1
                  @ [Heading (heading_level (name element)) (get_text_strip element)]\<rparr>)
      else if name element = ''p'' then
        (let st1 = close_code_block st; text = get_text_strip element
         in if text \<noteq> [] then st1\<lparr>markdown_content := markdown_content st1 @ [Paragraph text]\<rparr>
            else st1)
      else if is_code_element element then
        (let code_text = get_text element;
             language = detect_language element;
             st1 = (if \<not> in_code_block st
                    then st\<lparr>in_code_block := True, current_language := language\<rparr>
                    else st)
         in if strip code_text \<noteq> []
            then st1\<lparr>current_code_block := current_code_block st1 @ [code_text]\<rparr>
            else st1)
      else if name element \<in> set [''ul'', ''ol''] then
        (let st1 = close_code_block st
         in st1\<lparr>markdown_content :=
                  markdown_content st1 @ [ListStart]
                  @ map (\<lambda>li. Bullet (get_text_strip li)) (find_all [''li''] element)\<rparr>)
      else st)"

text \<open>After the loop: \<^verbatim>\<open>if in_code_block and current_code_block:\<close> append the last fence.\<close>

definition finish :: "fmt_state \<Rightarrow> fragment list" where
  "finish st =
     (if in_code_block st \<and> current_code_block st \<noteq> []
      then markdown_content st @ [Fence (current_language st) (concat (current_code_block st))]
      else markdown_content st)"

definition format_elements :: "node list \<Rightarrow> fragment list" where
  "format_elements elements = finish (foldl step init_state elements)"

text \<open>
  \<^verbatim>\<open>soup.find('div', {'class': [...]})\<close>: the first \<^verbatim>\<open>div\<close> that has one of the
  classes.
\<close>

definition find_div_classes :: "string list \<Rightarrow> node \<Rightarrow> node option" where
  "find_div_classes cns soup =
     (case filter (\<lambda>e. name e = ''div'' \<and> (\<exists>c \<in> set cns. c \<in> set (get_class e)))
             (descendants soup) of
        [] \<Rightarrow> None
      | e # es \<Rightarrow> Some e)"

definition find_main_content :: "node \<Rightarrow> node option" where
  "find_main_content soup =
     (case find_tag ''article'' soup of
        Some a \<Rightarrow> Some a
      | None \<Rightarrow> find_div_classes [''post-content'', ''entry-content'', ''article-content''] soup)"

definition article_title :: "node \<Rightarrow> string" where
  "article_title soup = (case find_tag ''h1'' soup of None \<Rightarrow> [] | Some h1 \<Rightarrow> get_text_strip h1)"

definition article_fragments :: "node \<Rightarrow> fragment list" where
  "article_fragments soup =
     (case find_main_content soup of
        None \<Rightarrow> []
      | Some main_content \<Rightarrow>
          format_elements
            (find_all [''p'', ''h2'', ''h3'', ''h4'', ''pre'', ''code'', ''ul'', ''ol'', ''div'']
               main_content))"

section \<open>Exceptions\<close>

text \<open>
  An exception is a value. The code catches one class only, \<^verbatim>\<open>requests.RequestException\<close>
  (with its subclasses: \<^verbatim>\<open>ConnectionError\<close>, \<^verbatim>\<open>Timeout\<close>, \<^verbatim>\<open>HTTPError\<close>, ...), so the
  model tells an exception of that class from one of any other class, such as
  \<^verbatim>\<open>LocationParseError\<close> of urllib3 out of \<^verbatim>\<open>session.get\<close>, \<^verbatim>\<open>ParserRejectedMarkup\<close>
  out of \<^verbatim>\<open>BeautifulSoup\<close> or \<^verbatim>\<open>ValueError\<close> out of \<^verbatim>\<open>urljoin\<close>. The string is the
  name or message of the exception. A computation that may raise has a result of type
  \<open>exn + 'a\<close>: \<open>Inl e\<close> is \<^verbatim>\<open>raise e\<close>, \<open>Inr v\<close> is the value \<open>v\<close>.
\<close>

datatype exn = RequestException string | OtherException string

fun is_request_exception :: "exn \<Rightarrow> bool" where
  "is_request_exception (RequestException msg) = True"
| "is_request_exception (OtherException msg) = False"

text \<open>
  A \<^verbatim>\<open>for\<close> loop whose body may raise: the first exception ends the loop and is the
  result.
\<close>

fun for_each :: "('s \<Rightarrow> 'a \<Rightarrow> exn + 's) \<Rightarrow> 's \<Rightarrow> 'a list \<Rightarrow> exn + 's" where
  "for_each body s [] = Inr s"
| "for_each body s (x # xs) =
     (case body s x of
        Inl e \<Rightarrow> Inl e
      | Inr s' \<Rightarrow> for_each body s' xs)"

section \<open>The result of \<^verbatim>\<open>extract_article_content\<close>\<close>

record article =
  title :: string
  content :: string

text \<open>
  The parser \<^verbatim>\<open>BeautifulSoup(html, 'html.parser')\<close> is a parameter \<open>parse\<close>; it gives a
  tree or raises. The call is in no \<^verbatim>\<open>try\<close>, so what it raises leaves
  \<^verbatim>\<open>extract_article_content\<close>. \<open>Inr None\<close> is \<^verbatim>\<open>return None\<close>.
\<close>

definition extract_article_content ::
  "(string \<Rightarrow> exn + node) \<Rightarrow> string \<Rightarrow> exn + article option" where
  "extract_article_content parse html =
     (if html = [] then Inr None
      else (case parse html of
              Inl e \<Rightarrow> Inl e
            | Inr soup \<Rightarrow>
                Inr (Some \<lparr>title = article_title soup,
                           content = join nl (map render (article_fragments soup))\<rparr>)))"

section \<open>Orchestration: \<^verbatim>\<open>fetch_page\<close>, \<^verbatim>\<open>scrape_from_url\<close>, \<^verbatim>\<open>main\<close>\<close>

text \<open>
  The network is a parameter \<open>get\<close>: for a URL, \<^verbatim>\<open>session.get\<close> raises or gives a
  response with a status code and a body. \<^verbatim>\<open>raise_for_status\<close> raises \<^verbatim>\<open>HTTPError\<close>, a
  \<^verbatim>\<open>RequestException\<close>, for the codes 400 to 599. The delay before a request and the
  printed messages are left out.
\<close>

datatype response = Response nat string

fun raise_for_status :: "response \<Rightarrow> exn + response" where
  "raise_for_status (Response status_code body) =
     (if 400 \<le> status_code \<and> status_code < 600 then Inl (RequestException ''HTTPError'')
      else Inr (Response status_code body))"

fun response_text :: "response \<Rightarrow> string" where
  "response_text (Response status_code body) = body"

text \<open>
  \<^verbatim>\<open>fetch_page\<close>: the inner case is the body of the \<^verbatim>\<open>try\<close>, the outer one the
  \<^verbatim>\<open>except requests.RequestException\<close> clause, which returns None; an exception of
  another class is not caught.
\<close>

definition fetch_page :: "(string \<Rightarrow> exn + response) \<Rightarrow> string \<Rightarrow> exn + string option" where
  "fetch_page get url =
     (case (case get url of
              Inl e \<Rightarrow> Inl e
            | Inr response \<Rightarrow>
                (case raise_for_status response of
                   Inl e \<Rightarrow> Inl e
                 | Inr r \<Rightarrow> Inr (response_text r))) of
        Inl e \<Rightarrow> if is_request_exception e then Inr None else Inl e
      | Inr text \<Rightarrow> Inr (Some text))"

definition base_url :: string where
  "base_url = ''https://www.geeksforgeeks.org''"

text \<open>
  The body of \<^verbatim>\<open>for li in ul.find_all('li')\<close>. \<open>urljoin\<close> is a parameter, as \<open>get\<close> and
  \<open>parse\<close> are, and may raise as they may. \<^verbatim>\<open>link.get('href')\<close> is false without the
  attribute and with an empty one. The calls of \<^verbatim>\<open>urljoin\<close>, \<^verbatim>\<open>fetch_page\<close> and
  \<^verbatim>\<open>extract_article_content\<close> are in no \<^verbatim>\<open>try\<close>: what they raise ends the loop, and the
  list built so far is lost with it.
\<close>

definition process_li ::
  "(string \<Rightarrow> exn + response) \<Rightarrow> (string \<Rightarrow> exn + node) \<Rightarrow> (string \<Rightarrow> string \<Rightarrow> exn + string)
   \<Rightarrow> string list \<Rightarrow> node \<Rightarrow> exn + string list" where
  "process_li get parse urljoin markdown li =
     (case find_tag ''a'' li of
        None \<Rightarrow> Inr markdown
      | Some link \<Rightarrow>
          (case href_attr link of
             None \<Rightarrow> Inr markdown
           | Some href \<Rightarrow>
               if href = [] then Inr markdown
               else
                 (case urljoin base_url href of
                    Inl e \<Rightarrow> Inl e
                  | Inr article_url \<Rightarrow>
                      (let text = get_text_strip link;
                           md1 = markdown @ [nl @ ''### '' @ text @ nl]
                       in case fetch_page get article_url of
                            Inl e \<Rightarrow> Inl e
                          | Inr None \<Rightarrow> Inr (md1 @ [nl @ ''---'' @ nl])
                          | Inr (Some page_html) \<Rightarrow>
                              if page_html = [] then Inr (md1 @ [nl @ ''---'' @ nl])
                              else
                                (case extract_article_content parse page_html of
                                   Inl e \<Rightarrow> Inl e
                                 | Inr None \<Rightarrow> Inr (md1 @ [nl @ ''---'' @ nl])
                                 | Inr (Some article_content) \<Rightarrow>
                                     Inr (md1 @ [content article_content]
                                              @ [nl @ ''---'' @ nl]))))))"

text \<open>The body of \<^verbatim>\<open>for header in topic_section.find_all(['h2', 'h3'])\<close>, for the header at
  path \<open>p\<close>.\<close>

definition process_header ::
  "(string \<Rightarrow> exn + response) \<Rightarrow> (string \<Rightarrow> exn + node) \<Rightarrow> (string \<Rightarrow> string \<Rightarrow> exn + string)
   \<Rightarrow> node \<Rightarrow> string list \<Rightarrow> path \<times> node \<Rightarrow> exn + string list" where
  "process_header get parse urljoin soup markdown ph =
     (case ph of (p, header) \<Rightarrow>
        (let section_title = get_text_strip header
         in if section_title = [] \<or> length section_title < 2 then Inr markdown
            else
              (let md1 = markdown @ [nl @ ''## '' @ section_title @ nl]
               in case find_next ''ul'' soup p of
                    None \<Rightarrow> Inr md1
                  | Some ul \<Rightarrow> for_each (process_li get parse urljoin) md1 (find_all [''li''] ul))))"

text \<open>\<^verbatim>\<open>topic_section.find_all(names)\<close> with paths: the matching tags strictly below the
  tag at path \<open>sec\<close>.\<close>

definition section_find_all :: "string list \<Rightarrow> node \<Rightarrow> path \<Rightarrow> (path \<times> node) list" where
  "section_find_all names soup sec =
     filter (\<lambda>(p, e). strict_prefix sec p \<and> name e \<in> set names) (enum_node [] soup)"

definition main_title :: "node \<Rightarrow> string" where
  "main_title soup =
     (case find_tag ''h1'' soup of
        None \<Rightarrow> ''GeeksForGeeks Guide''
      | Some page_title \<Rightarrow> get_text_strip page_title)"

text \<open>
  \<^verbatim>\<open>scrape_from_url\<close>: \<open>Inr None\<close> is \<^verbatim>\<open>return None\<close>, \<open>Inr (Some markdown)\<close> the
  returned list, \<open>Inl e\<close> an exception that leaves the method.
\<close>

definition scrape_from_url ::
  "(string \<Rightarrow> exn + response) \<Rightarrow> (string \<Rightarrow> exn + node) \<Rightarrow> (string \<Rightarrow> string \<Rightarrow> exn + string)
   \<Rightarrow> string \<Rightarrow> exn + string list option" where
  "scrape_from_url get parse urljoin url =
     (case fetch_page get url of
        Inl e \<Rightarrow> Inl e
      | Inr None \<Rightarrow> Inr None
      | Inr (Some html_content) \<Rightarrow>
          if html_content = [] then Inr None
          else
            (case parse html_content of
               Inl e \<Rightarrow> Inl e
             | Inr soup \<Rightarrow>
                 (case find_topic_section soup of
                    None \<Rightarrow> Inr None
                  | Some topic_section \<Rightarrow>
                      (case for_each (process_header get parse urljoin soup)
                              [''# '' @ main_title soup @ nl]
                              (section_find_all [''h2'', ''h3''] soup topic_section) of
                         Inl e \<Rightarrow> Inl e
                       | Inr markdown \<Rightarrow> Inr (Some markdown)))))"

subsection \<open>The output file name\<close>

text \<open>
  \<^verbatim>\<open>s.split(sep)\<close> for a separator of one character: a character that is not the
  separator joins the first piece of the rest. The rest always has a first piece; the
  other branch of the case is there to make the function total.
\<close>

fun split :: "char \<Rightarrow> string \<Rightarrow> string list" where
  "split sep [] = [[]]"
| "split sep (c # cs) =
     (if c = sep then [] # split sep cs
      else (case split sep cs of
              [] \<Rightarrow> [[c]]
            | seg # segs \<Rightarrow> (c # seg) # segs))"

text \<open>\<^verbatim>\<open>xs[i]\<close>: a negative index counts from the end; None is \<^verbatim>\<open>IndexError\<close>.\<close>

definition get_item :: "'a list \<Rightarrow> int \<Rightarrow> 'a option" where
  "get_item xs i =
     (let n = int (length xs); j = (if i < 0 then n + i else i)
      in if 0 \<le> j \<and> j < n then Some (xs ! nat j) else None)"

definition endswith :: "string \<Rightarrow> string \<Rightarrow> bool" where
  "endswith s suffix_str = suffix suffix_str s"

text \<open>The two lines of \<^verbatim>\<open>main\<close> that compute \<^verbatim>\<open>filename\<close>.\<close>

definition filename :: "string \<Rightarrow> string option" where
  "filename url =
     (case (if endswith url ''/'' then get_item (split (CHR ''/'') url) (- 2)
            else get_item (split (CHR ''/'') url) (- 1)) of
        None \<Rightarrow> None
      | Some seg \<Rightarrow> Some (seg @ ''.md''))"

section \<open>The specification's notions\<close>

subsection \<open>The final non-empty path segment of a URL\<close>

text \<open>
  The specification derives the file name from the final non-empty path segment of the
  topic URL. The path of a URL is its path component in the sense of RFC 3986: what
  follows the scheme \<^verbatim>\<open>name:\<close> and the authority \<^verbatim>\<open>//host\<close>, up to the query
  \<^verbatim>\<open>?...\<close> or the fragment \<^verbatim>\<open>#...\<close>. \<open>url_path\<close> follows the expression of Appendix B,
  \<^verbatim>\<open>^(([^:/?#]+):)?(//([^/?#]*))?([^?#]*)(\?([^#]*))?(#(.*))?\<close>, whose fifth group is the
  path. These definitions follow the specification's words, to be compared with
  \<open>filename\<close>.
\<close>

definition url_path :: "string \<Rightarrow> string" where
  "url_path url =
     (let after_name = dropWhile (\<lambda>c. c \<notin> set '':/?#'') url;
          after_scheme =
            (if takeWhile (\<lambda>c. c \<notin> set '':/?#'') url \<noteq> [] \<and> prefix '':'' after_name
             then drop 1 after_name else url);
          after_authority =
            (if prefix ''//'' after_scheme
             then dropWhile (\<lambda>c. c \<notin> set ''/?#'') (drop 2 after_scheme) else after_scheme)
      in takeWhile (\<lambda>c. c \<notin> set ''?#'') after_authority)"

definition last_nonempty_segment :: "string \<Rightarrow> string option" where
  "last_nonempty_segment p =
     (case filter (\<lambda>seg. seg \<noteq> []) (split (CHR ''/'') p) of
        [] \<Rightarrow> None
      | seg # segs \<Rightarrow> Some (last (seg # segs)))"

definition spec_filename :: "string \<Rightarrow> string option" where
  "spec_filename url =
     (case last_nonempty_segment (url_path url) of
        None \<Rightarrow> None
      | Some seg \<Rightarrow> Some (seg @ ''.md''))"

subsection \<open>A failed request\<close>


subsection \<open>Header-led lists in document order\<close>

text \<open>
  The specification considers the headings of level 2 and 3 in document order. This
  definition follows those words, to be compared with \<open>find_topic_section\<close>: one pass
  over the \<^verbatim>\<open>h2\<close> and \<^verbatim>\<open>h3\<close> tags as they come in the document.
\<close>

definition spec_header_led :: "node \<Rightarrow> path option" where
  "spec_header_led soup = scan_headers soup 3 (soup_find_all [''h2'', ''h3''] soup)"

section \<open>Example documents\<close>

text \<open>The page \<^verbatim>\<open><h1> Hi </h1><span>text</span>\<close>: a title and no article container.\<close>

definition ex_plain_page :: node where
  "ex_plain_page =
     Tag ''[document]'' None None
       [Tag ''h1'' None None [NavigableString '' Hi ''],
        Tag ''span'' None None [NavigableString ''text'']]"

text \<open>
  A parser that does on \<^verbatim>\<open><![foo]>\<close> what \<^verbatim>\<open>html.parser\<close> does there, reject the markup,
  and that reads the page above from its text.
\<close>

definition ex_html_parser :: "string \<Rightarrow> exn + node" where
  "ex_html_parser html =
     (if html = ''<![foo]>'' then Inl (OtherException ''ParserRejectedMarkup'')
      else if html = ''<h1> Hi </h1><span>text</span>'' then Inr ex_plain_page
      else Inr (Tag ''[document]'' None None [NavigableString html]))"

text \<open>
  A topic page without an \<^verbatim>\<open>h1\<close>: one section \<^verbatim>\<open>Greedy\<close> with a list of three
  links; an article page with one paragraph; a network in which the topic page and the
  article \<^verbatim>\<open>/b\<close> are served, \<^verbatim>\<open>/c\<close> answers 404 and every other request times out.
\<close>

definition ex_item :: "string \<Rightarrow> string \<Rightarrow> node" where
  "ex_item href text =
     Tag ''li'' None None [Tag ''a'' None (Some href) [NavigableString text]]"

definition ex_topic_page :: node where
  "ex_topic_page =
     Tag ''[document]'' None None
       [Tag ''div'' None None
          [Tag ''h2'' None None [NavigableString ''Greedy''],
           Tag ''ul'' None None [ex_item ''/a'' ''A'', ex_item ''/b'' ''B'', ex_item ''/c'' ''C'']]]"

definition ex_article_page :: node where
  "ex_article_page =
     Tag ''[document]'' None None
       [Tag ''article'' None None [Tag ''p'' None None [NavigableString ''Hello'']]]"

definition ex_get :: "string \<Rightarrow> exn + response" where
  "ex_get url =
     (if url = ''https://www.geeksforgeeks.org/greedy-algorithms/'' then Inr (Response 200 ''topic'')
      else if url = ''https://www.geeksforgeeks.org/b'' then Inr (Response 200 ''article'')
      else if url = ''https://www.geeksforgeeks.org/c'' then Inr (Response 404 ''gone'')
      else Inl (RequestException ''ConnectTimeout''))"

definition ex_parse :: "string \<Rightarrow> exn + node" where
  "ex_parse html = (if html = ''topic'' then Inr ex_topic_page else Inr ex_article_page)"

definition ex_urljoin :: "string \<Rightarrow> string \<Rightarrow> exn + string" where
  "ex_urljoin base href = Inr (base @ href)"


text \<open>
  A page with three blocks: an \<^verbatim>\<open>h2\<close> with a list of two links, an \<^verbatim>\<open>h3\<close> with a
  list of three links, an \<^verbatim>\<open>h2\<close> with a list of three links.
\<close>

definition ex_h3_first_page :: node where
  "ex_h3_first_page =
     Tag ''[document]'' None None
       [Tag ''div'' None None
          [Tag ''h2'' None None [NavigableString ''Intro''],
           Tag ''ul'' None None [ex_item ''/a'' ''A'', ex_item ''/b'' ''B'']],
        Tag ''div'' None None
          [Tag ''h3'' None None [NavigableString ''First''],
           Tag ''ul'' None None [ex_item ''/c'' ''C'', ex_item ''/d'' ''D'', ex_item ''/e'' ''E'']],
        Tag ''div'' None None
          [Tag ''h2'' None None [NavigableString ''Second''],
           Tag ''ul'' None None [ex_item ''/f'' ''F'', ex_item ''/g'' ''G'', ex_item ''/h'' ''H'']]]"


section \<open>Properties\<close>

subsection \<open>The result of \<^verbatim>\<open>extract_article_content\<close>\<close>

lemma find_tag_None: "find_tag n t = None \<longleftrightarrow> (\<forall>e\<in>set (descendants t). name e \<noteq> n)"
proof -
  have "find_tag n t = None \<longleftrightarrow> filter (\<lambda>e. name e \<in> set [n]) (descendants t) = []"
    by (simp add: find_tag_def find_all_def split: list.split)
  then show ?thesis
    by (simp add: filter_empty_conv)
qed

lemma find_tag_first:
  assumes "descendants t = pre @ h # post" and "name h = n" and "\<forall>e\<in>set pre. name e \<noteq> n"
  shows "find_tag n t = Some h"
proof -
  have "filter (\<lambda>e. name e \<in> set [n]) pre = []"
    using assms(3) by (simp add: filter_empty_conv)
  then show ?thesis
    using assms(1,2) by (simp add: find_tag_def find_all_def)
qed

lemma find_div_classes_None:
  "find_div_classes cns soup = None \<longleftrightarrow>
     (\<forall>e\<in>set (descendants soup). \<not> (name e = ''div'' \<and> (\<exists>c\<in>set cns. c \<in> set (get_class e))))"
proof -
  have "find_div_classes cns soup = None \<longleftrightarrow>
          filter (\<lambda>e. name e = ''div'' \<and> (\<exists>c\<in>set cns. c \<in> set (get_class e)))
            (descendants soup) = []"
    by (simp add: find_div_classes_def split: list.split)
  then show ?thesis
    by (simp only: filter_empty_conv)
qed

lemma find_main_content_None:
  "find_main_content soup = None \<longleftrightarrow>
     (\<forall>e\<in>set (descendants soup).
        name e \<noteq> ''article''
        \<and> \<not> (name e = ''div''
             \<and> (\<exists>c\<in>set [''post-content'', ''entry-content'', ''article-content''].
                   c \<in> set (get_class e))))"
proof (cases "find_tag ''article'' soup")
  case None
  then have "\<forall>e\<in>set (descendants soup). name e \<noteq> ''article''"
    by (simp add: find_tag_None)
  then show ?thesis
    using None by (simp add: find_main_content_def find_div_classes_None)
next
  case (Some a)
  then have "\<not> (\<forall>e\<in>set (descendants soup). name e \<noteq> ''article'')"
    using find_tag_None [of "''article''" soup] by simp
  then show ?thesis
    using Some by (auto simp: find_main_content_def)
qed

text \<open>
  Claim C10, as amended. \<^verbatim>\<open>extract_article_content\<close> returns None exactly when the
  input is empty. On a non-empty input that the parser rejects, the parser's exception
  leaves the function. On a non-empty input that the parser reads, the function returns a
  record: its title is the stripped text of the first \<^verbatim>\<open>h1\<close> in document order, or
  the empty string when the tree has no \<^verbatim>\<open>h1\<close>, and its content is the empty string
  when the tree has no \<^verbatim>\<open>article\<close> element and no \<^verbatim>\<open>div\<close> with one of the classes
  \<^verbatim>\<open>post-content\<close>, \<^verbatim>\<open>entry-content\<close>, \<^verbatim>\<open>article-content\<close>.
\<close>

theorem extract_article_content_result:
  "(extract_article_content parse html = Inr None \<longleftrightarrow> html = []) \<and>
   (\<forall>e. html \<noteq> [] \<and> parse html = Inl e \<longrightarrow> extract_article_content parse html = Inl e) \<and>
   (\<forall>soup. html \<noteq> [] \<and> parse html = Inr soup \<longrightarrow>
      (\<exists>r. extract_article_content parse html = Inr (Some r)
         \<and> (\<forall>pre h1 post.
               descendants soup = pre @ h1 # post \<and> name h1 = ''h1''
               \<and> (\<forall>e\<in>set pre. name e \<noteq> ''h1'')
               \<longrightarrow> title r = get_text_strip h1)
         \<and> ((\<forall>e\<in>set (descendants soup). name e \<noteq> ''h1'') \<longrightarrow> title r = [])
         \<and> ((\<forall>e\<in>set (descendants soup).
                name e \<noteq> ''article''
                \<and> \<not> (name e = ''div''
                     \<and> (\<exists>c\<in>set [''post-content'', ''entry-content'', ''article-content''].
                           c \<in> set (get_class e))))
             \<longrightarrow> content r = [])))"
proof (intro conjI allI impI)
  show "extract_article_content parse html = Inr None \<longleftrightarrow> html = []"
    by (simp add: extract_article_content_def split: sum.split)
next
  fix e
  assume "html \<noteq> [] \<and> parse html = Inl e"
  then show "extract_article_content parse html = Inl e"
    by (simp add: extract_article_content_def)
next
  fix soup
  assume a: "html \<noteq> [] \<and> parse html = Inr soup"
  let ?r = "\<lparr>title = article_title soup,
             content = join nl (map render (article_fragments soup))\<rparr>"
  have r: "extract_article_content parse html = Inr (Some ?r)"
    using a by (simp add: extract_article_content_def)
  have t1: "title ?r = get_text_strip h1"
    if "descendants soup = pre @ h1 # post \<and> name h1 = ''h1'' \<and> (\<forall>e\<in>set pre. name e \<noteq> ''h1'')"
    for pre h1 post
  proof -
    from that have "find_tag ''h1'' soup = Some h1"
      using find_tag_first [of soup pre h1 post "''h1''"] by simp
    then show ?thesis by (simp add: article_title_def)
  qed
  have t2: "title ?r = []" if "\<forall>e\<in>set (descendants soup). name e \<noteq> ''h1''"
  proof -
    from that have "find_tag ''h1'' soup = None"
      by (simp add: find_tag_None)
    then show ?thesis by (simp add: article_title_def)
  qed
  have c: "content ?r = []"
    if "\<forall>e\<in>set (descendants soup).
          name e \<noteq> ''article''
          \<and> \<not> (name e = ''div''
               \<and> (\<exists>c\<in>set [''post-content'', ''entry-content'', ''article-content''].
                     c \<in> set (get_class e)))"
  proof -
    from that have "find_main_content soup = None"
      by (simp only: find_main_content_None)
    then show ?thesis by (simp add: article_fragments_def)
  qed
  from r t1 t2 c
  show "\<exists>r. extract_article_content parse html = Inr (Some r)
         \<and> (\<forall>pre h1 post.
               descendants soup = pre @ h1 # post \<and> name h1 = ''h1''
               \<and> (\<forall>e\<in>set pre. name e \<noteq> ''h1'')
               \<longrightarrow> title r = get_text_strip h1)
         \<and> ((\<forall>e\<in>set (descendants soup). name e \<noteq> ''h1'') \<longrightarrow> title r = [])
         \<and> ((\<forall>e\<in>set (descendants soup).
                name e \<noteq> ''article''
                \<and> \<not> (name e = ''div''
                     \<and> (\<exists>c\<in>set [''post-content'', ''entry-content'', ''article-content''].
                           c \<in> set (get_class e))))
             \<longrightarrow> content r = [])"
    by blast
qed

text \<open>
  The theorem on two inputs: the page \<^verbatim>\<open><h1> Hi </h1><span>text</span>\<close>, with an
  \<^verbatim>\<open>h1\<close> and no container, and the text \<^verbatim>\<open>plain\<close>, with neither.
\<close>

theorem extract_article_content_result_witness:
  "ex_html_parser ''<h1> Hi </h1><span>text</span>'' = Inr ex_plain_page
   \<and> extract_article_content ex_html_parser ''<h1> Hi </h1><span>text</span>''
       = Inr (Some \<lparr>title = ''Hi'', content = []\<rparr>)
   \<and> extract_article_content ex_html_parser ''plain''
       = Inr (Some \<lparr>title = [], content = []\<rparr>)"
proof -
  let ?html = "''<h1> Hi </h1><span>text</span>''"
  let ?h1 = "Tag ''h1'' None None [NavigableString '' Hi '']"
  let ?span = "Tag ''span'' None None [NavigableString ''text'']"
  let ?doc = "Tag ''[document]'' None None [NavigableString ''plain'']"
  have p: "?html \<noteq> [] \<and> ex_html_parser ?html = Inr ex_plain_page"
    by code_simp
  have d: "descendants ex_plain_page = [] @ ?h1 # [?span] \<and> name ?h1 = ''h1''
           \<and> (\<forall>e\<in>set []. name e \<noteq> ''h1'')"
    by (simp add: descendants_def ex_plain_page_def)
  have t: "get_text_strip ?h1 = ''Hi''"
    by code_simp
  have n: "\<forall>e\<in>set (descendants ex_plain_page).
             name e \<noteq> ''article''
             \<and> \<not> (name e = ''div''
                  \<and> (\<exists>c\<in>set [''post-content'', ''entry-content'', ''article-content''].
                        c \<in> set (get_class e)))"
    by (simp add: descendants_def ex_plain_page_def)
  have p2: "''plain'' \<noteq> [] \<and> ex_html_parser ''plain'' = Inr ?doc"
    by code_simp
  have d2: "descendants ?doc = []"
    by (simp add: descendants_def)
  from extract_article_content_result [of ex_html_parser ?html] p
  obtain r where r: "extract_article_content ex_html_parser ?html = Inr (Some r)"
    and r1: "\<forall>pre h1 post.
               descendants ex_plain_page = pre @ h1 # post \<and> name h1 = ''h1''
               \<and> (\<forall>e\<in>set pre. name e \<noteq> ''h1'')
               \<longrightarrow> title r = get_text_strip h1"
    and r3: "(\<forall>e\<in>set (descendants ex_plain_page).
                name e \<noteq> ''article''
                \<and> \<not> (name e = ''div''
                     \<and> (\<exists>c\<in>set [''post-content'', ''entry-content'', ''article-content''].
                           c \<in> set (get_class e))))
             \<longrightarrow> content r = []"
    by blast
  from r1 d have "title r = get_text_strip ?h1"
    by blast
  moreover from r3 n have "content r = []"
    by blast
  ultimately have one: "extract_article_content ex_html_parser ?html
                          = Inr (Some \<lparr>title = ''Hi'', content = []\<rparr>)"
    using r t by simp
  from extract_article_content_result [of ex_html_parser "''plain''"] p2
  obtain q where q: "extract_article_content ex_html_parser ''plain'' = Inr (Some q)"
    and q2: "(\<forall>e\<in>set (descendants ?doc). name e \<noteq> ''h1'') \<longrightarrow> title q = []"
    and q3: "(\<forall>e\<in>set (descendants ?doc).
                name e \<noteq> ''article''
                \<and> \<not> (name e = ''div''
                     \<and> (\<exists>c\<in>set [''post-content'', ''entry-content'', ''article-content''].
                           c \<in> set (get_class e))))
             \<longrightarrow> content q = []"
    by blast
  from q2 q3 have "title q = [] \<and> content q = []"
    by (simp add: d2)
  then have two: "extract_article_content ex_html_parser ''plain''
                    = Inr (Some \<lparr>title = [], content = []\<rparr>)"
    using q by simp
  from p one two show ?thesis by simp
qed

text \<open>
  The input \<^verbatim>\<open><![foo]>\<close> is not empty and the parser rejects it: the result is neither
  a record nor None.
\<close>

theorem parser_rejects_counterexample:
  "''<![foo]>'' \<noteq> []
   \<and> extract_article_content ex_html_parser ''<![foo]>''
       = Inl (OtherException ''ParserRejectedMarkup'')"
  by code_simp

subsection \<open>The output file name\<close>

lemma split_not_Nil: "split sep s \<noteq> []"
  by (cases s) (simp_all split: list.split)

lemma split_snoc_sep: "split sep (s @ [sep]) = split sep s @ [[]]"
proof (induction s)
  case Nil
  show ?case by simp
next
  case (Cons c cs)
  then show ?case using split_not_Nil [of sep cs] by (cases "split sep cs") simp_all
qed

lemma split_append_sep: "split sep (a @ sep # b) = split sep a @ split sep b"
proof (induction a)
  case Nil
  show ?case by simp
next
  case (Cons c cs)
  then show ?case using split_not_Nil [of sep cs] by (cases "split sep cs") simp_all
qed

lemma split_no_sep: "sep \<notin> set s \<Longrightarrow> split sep s = [s]"
  by (induction s) auto

lemma get_item_last: "xs \<noteq> [] \<Longrightarrow> get_item xs (- 1) = Some (last xs)"
  by (cases xs rule: rev_cases) (simp_all add: get_item_def Let_def)

lemma get_item_before_last: "ys \<noteq> [] \<Longrightarrow> get_item (ys @ [z]) (- 2) = Some (last ys)"
  by (cases ys rule: rev_cases) (simp_all add: get_item_def Let_def nth_append)

lemma get_item_second_last: "get_item (xs @ [y, z]) (- 2) = Some y"
  by (simp add: get_item_def Let_def nth_append)

lemma last_of_case:
  "xs \<noteq> [] \<Longrightarrow> (case xs of [] \<Rightarrow> None | y # ys \<Rightarrow> Some (last (y # ys))) = Some (last xs)"
  by (cases xs) simp_all

lemma endswith_slash: "endswith url ''/'' \<longleftrightarrow> url \<noteq> [] \<and> last url = CHR ''/''"
  by (cases url rule: rev_cases) (auto simp: endswith_def)

text \<open>The file name that the code computes, for a URL that ends in a piece \<open>seg\<close> free of
  slashes and at most one slash after it.\<close>

lemma filename_segment:
  assumes "seg \<noteq> []" and "CHR ''/'' \<notin> set seg" and "slash = [] \<or> slash = ''/''"
  shows "filename (a @ ''/'' @ seg @ slash) = Some (seg @ ''.md'')"
proof -
  have sp: "split (CHR ''/'') (a @ CHR ''/'' # seg) = split (CHR ''/'') a @ [seg]"
    using assms(2) by (simp add: split_append_sep split_no_sep)
  from assms(3) show ?thesis
  proof
    assume s: "slash = []"
    have "last (a @ CHR ''/'' # seg) \<noteq> CHR ''/''"
      using assms(1,2) by (cases seg rule: rev_cases) auto
    then show ?thesis
      using sp by (simp add: s filename_def endswith_slash get_item_last)
  next
    assume s: "slash = ''/''"
    have "split (CHR ''/'') ((a @ CHR ''/'' # seg) @ [CHR ''/'']) = (split (CHR ''/'') a @ [seg]) @ [[]]"
      unfolding split_snoc_sep sp by simp
    then have sp2: "split (CHR ''/'') (a @ CHR ''/'' # seg @ ''/'') = (split (CHR ''/'') a @ [seg]) @ [[]]"
      by simp
    have e: "endswith (a @ CHR ''/'' # seg @ ''/'') ''/''"
      by (simp add: endswith_def suffix_def)
    have "get_item ((split (CHR ''/'') a @ [seg]) @ [[]]) (- 2) = Some seg"
      by (simp add: get_item_second_last)
    then show ?thesis
      using e sp2 by (simp add: s filename_def)
  qed
qed

text \<open>The final non-empty segment of such a path.\<close>

lemma last_nonempty_segment_path:
  assumes "seg \<noteq> []" and "CHR ''/'' \<notin> set seg" and "slash = [] \<or> slash = ''/''"
  shows "last_nonempty_segment (dir @ ''/'' @ seg @ slash) = Some seg"
proof -
  have sp: "split (CHR ''/'') (dir @ CHR ''/'' # seg) = split (CHR ''/'') dir @ [seg]"
    using assms(2) by (simp add: split_append_sep split_no_sep)
  have "split (CHR ''/'') ((dir @ CHR ''/'' # seg) @ [CHR ''/'']) = (split (CHR ''/'') dir @ [seg]) @ [[]]"
    unfolding split_snoc_sep sp by simp
  then have sp2: "split (CHR ''/'') (dir @ CHR ''/'' # seg @ ''/'') = (split (CHR ''/'') dir @ [seg]) @ [[]]"
    by simp
  have "filter (\<lambda>s. s \<noteq> []) (split (CHR ''/'') (dir @ ''/'' @ seg @ slash))
          = filter (\<lambda>s. s \<noteq> []) (split (CHR ''/'') dir) @ [seg]"
    using assms(1,3) sp sp2 by auto
  then show ?thesis
    unfolding last_nonempty_segment_def by (simp add: last_of_case)
qed

text \<open>The path of a URL that consists of a scheme, an authority and a path.\<close>

lemma url_path_absolute:
  assumes "scheme \<noteq> []" and "\<forall>c\<in>set scheme. c \<notin> set '':/?#''"
    and "\<forall>c\<in>set netloc. c \<notin> set ''/?#''"
    and "p \<noteq> []" and "hd p = CHR ''/''" and "\<forall>c\<in>set p. c \<notin> set ''?#''"
  shows "url_path (scheme @ ''://'' @ netloc @ p) = p"
proof -
  let ?url = "scheme @ ''://'' @ netloc @ p"
  obtain q where p: "p = CHR ''/'' # q"
    using assms(4,5) by (cases p) auto
  have tw: "takeWhile (\<lambda>c. c \<notin> set '':/?#'') ?url = scheme"
    using assms(2) by (simp add: takeWhile_append2)
  have dw: "dropWhile (\<lambda>c. c \<notin> set '':/?#'') ?url = ''://'' @ netloc @ p"
    using assms(2) by (simp add: dropWhile_append2)
  have da: "dropWhile (\<lambda>c. c \<notin> set ''/?#'') (netloc @ p) = p"
    using assms(3) by (simp add: dropWhile_append2 p)
  have tp: "takeWhile (\<lambda>c. c \<notin> set ''?#'') p = p"
    using assms(6) by (simp add: takeWhile_eq_all_conv)
  show ?thesis
    unfolding url_path_def Let_def tw dw using assms(1) da tp by simp
qed

text \<open>
  Claim C8, as amended. For a URL that consists of a scheme, an authority and a path,
  with no query and no fragment, whose path ends in a non-empty segment and at most one
  slash after it, the file name is that segment, the final non-empty path segment of the
  URL, with \<^verbatim>\<open>.md\<close> appended.
\<close>

theorem filename_last_segment:
  assumes "url = scheme @ ''://'' @ netloc @ dir @ ''/'' @ seg @ slash"
    and "scheme \<noteq> []" and "\<forall>c\<in>set scheme. c \<notin> set '':/?#''"
    and "\<forall>c\<in>set netloc. c \<notin> set ''/?#''"
    and "dir = [] \<or> hd dir = CHR ''/''" and "\<forall>c\<in>set dir. c \<notin> set ''?#''"
    and "seg \<noteq> []" and "\<forall>c\<in>set seg. c \<notin> set ''/?#''"
    and "slash = [] \<or> slash = ''/''"
  shows "url_path url = dir @ ''/'' @ seg @ slash
     \<and> last_nonempty_segment (url_path url) = Some seg
     \<and> spec_filename url = Some (seg @ ''.md'')
     \<and> filename url = Some (seg @ ''.md'')"
proof -
  let ?p = "dir @ ''/'' @ seg @ slash"
  have seg: "CHR ''/'' \<notin> set seg"
    using assms(8) by auto
  have ne: "?p \<noteq> []"
    by simp
  have hd: "hd ?p = CHR ''/''"
    using assms(5) by (cases dir) auto
  have chars: "\<forall>c\<in>set ?p. c \<notin> set ''?#''"
  proof
    fix c
    assume "c \<in> set ?p"
    then consider "c \<in> set dir" | "c = CHR ''/''" | "c \<in> set seg" | "c \<in> set slash"
      by auto
    then show "c \<notin> set ''?#''"
    proof cases
      case 1
      with assms(6) show ?thesis by blast
    next
      case 2
      then show ?thesis by simp
    next
      case 3
      with assms(8) have "c \<notin> set ''/?#''" by blast
      then show ?thesis by simp
    next
      case 4
      with assms(9) have "c = CHR ''/''" by auto
      then show ?thesis by simp
    qed
  qed
  have "url_path (scheme @ ''://'' @ netloc @ ?p) = ?p"
    using assms(2,3,4) ne hd chars by (rule url_path_absolute)
  then have path: "url_path url = ?p"
    by (simp only: assms(1))
  have last_seg: "last_nonempty_segment ?p = Some seg"
    using assms(7) seg assms(9) by (rule last_nonempty_segment_path)
  have "filename ((scheme @ ''://'' @ netloc @ dir) @ ''/'' @ seg @ slash) = Some (seg @ ''.md'')"
    using assms(7) seg assms(9) by (rule filename_segment)
  then have f: "filename url = Some (seg @ ''.md'')"
    by (simp only: assms(1) append_assoc)
  have sf: "spec_filename url = Some (seg @ ''.md'')"
    unfolding spec_filename_def path last_seg by simp
  from path last_seg f sf show ?thesis
    by (simp only: simp_thms)
qed

theorem filename_last_segment_witness:
  "url_path ''https://www.geeksforgeeks.org/greedy-algorithms/'' = ''/greedy-algorithms/''
   \<and> filename ''https://www.geeksforgeeks.org/greedy-algorithms/'' = Some ''greedy-algorithms.md''
   \<and> filename ''https://www.geeksforgeeks.org/dsa/greedy-algorithms'' = Some ''greedy-algorithms.md''"
proof -
  have u1: "''https://www.geeksforgeeks.org/greedy-algorithms/''
              = ''https'' @ ''://'' @ ''www.geeksforgeeks.org'' @ [] @ ''/'' @ ''greedy-algorithms'' @ ''/''"
    by simp
  have u2: "''https://www.geeksforgeeks.org/dsa/greedy-algorithms''
              = ''https'' @ ''://'' @ ''www.geeksforgeeks.org'' @ ''/dsa'' @ ''/'' @ ''greedy-algorithms'' @ []"
    by simp
  have a: "''https'' \<noteq> []"
    by simp
  have b: "\<forall>c\<in>set ''https''. c \<notin> set '':/?#''"
    by simp
  have c: "\<forall>c\<in>set ''www.geeksforgeeks.org''. c \<notin> set ''/?#''"
    by simp
  have d1: "[] = [] \<or> hd [] = CHR ''/''"
    by simp
  have d2: "''/dsa'' = [] \<or> hd ''/dsa'' = CHR ''/''"
    by simp
  have e1: "\<forall>c\<in>set []. c \<notin> set ''?#''"
    by simp
  have e2: "\<forall>c\<in>set ''/dsa''. c \<notin> set ''?#''"
    by simp
  have f: "''greedy-algorithms'' \<noteq> []"
    by simp
  have g: "\<forall>c\<in>set ''greedy-algorithms''. c \<notin> set ''/?#''"
    by simp
  have h1: "''/'' = [] \<or> ''/'' = ''/''"
    by simp
  have h2: "[] = [] \<or> [] = ''/''"
    by simp
  from filename_last_segment [OF u1 a b c d1 e1 f g h1]
  have one: "url_path ''https://www.geeksforgeeks.org/greedy-algorithms/'' = ''/greedy-algorithms/''
             \<and> filename ''https://www.geeksforgeeks.org/greedy-algorithms/'' = Some ''greedy-algorithms.md''"
    by simp
  from filename_last_segment [OF u2 a b c d2 e2 f g h2]
  have two: "filename ''https://www.geeksforgeeks.org/dsa/greedy-algorithms'' = Some ''greedy-algorithms.md''"
    by simp
  from one two show ?thesis
    by (simp only: simp_thms)
qed

text \<open>
  Three URLs on which the file name is not the final non-empty path segment with
  \<^verbatim>\<open>.md\<close>: a path that ends in two slashes, where the code takes the empty piece
  between them; a URL whose path is \<^verbatim>\<open>/\<close>, where the code takes the host; a URL with
  a query, where the code takes the query.
\<close>

theorem filename_counterexample:
  "filename ''https://www.geeksforgeeks.org/greedy-algorithms//'' = Some ''.md''
   \<and> spec_filename ''https://www.geeksforgeeks.org/greedy-algorithms//'' = Some ''greedy-algorithms.md''
   \<and> filename ''https://www.geeksforgeeks.org/'' = Some ''www.geeksforgeeks.org.md''
   \<and> spec_filename ''https://www.geeksforgeeks.org/'' = None
   \<and> filename ''https://www.geeksforgeeks.org/greedy-algorithms/?ref=lbp'' = Some ''?ref=lbp.md''
   \<and> spec_filename ''https://www.geeksforgeeks.org/greedy-algorithms/?ref=lbp''
       = Some ''greedy-algorithms.md''"
  by code_simp

subsection \<open>Orchestration\<close>


lemma for_each_prefix:
  assumes "\<And>s x s'. body s x = Inr s' \<Longrightarrow> prefix s s'"
  shows "for_each body s xs = Inr s' \<Longrightarrow> prefix s s'"
proof (induction xs arbitrary: s)
  case Nil
  then show ?case by simp
next
  case (Cons x xs)
  from Cons.prems obtain t where t: "body s x = Inr t" and r: "for_each body t xs = Inr s'"
    by (auto split: sum.splits)
  from t have "prefix s t" by (rule assms)
  moreover from r have "prefix t s'" by (rule Cons.IH)
  ultimately show ?case by (rule prefix_order.trans)
qed

lemma process_li_prefix:
  "process_li get parse urljoin md li = Inr md' \<Longrightarrow> prefix md md'"
  by (auto simp: process_li_def Let_def split: option.splits sum.splits if_splits)

lemma for_each_process_li_prefix:
  "for_each (process_li get parse urljoin) md lis = Inr md' \<Longrightarrow> prefix md md'"
  using for_each_prefix [where body = "process_li get parse urljoin"] process_li_prefix
  by blast

lemma process_header_prefix:
  assumes "process_header get parse urljoin soup md ph = Inr md'"
  shows "prefix md md'"
proof (cases ph)
  case (Pair p header)
  show ?thesis
  proof (cases "get_text_strip header = [] \<or> length (get_text_strip header) < 2")
    case True
    with assms Pair show ?thesis by (simp add: process_header_def Let_def)
  next
    case False
    let ?md1 = "md @ [nl @ ''## '' @ get_text_strip header @ nl]"
    show ?thesis
    proof (cases "find_next ''ul'' soup p")
      case None
      with assms Pair False show ?thesis by (auto simp: process_header_def Let_def)
    next
      case (Some ul)
      with assms Pair False
      have "for_each (process_li get parse urljoin) ?md1 (find_all [''li''] ul) = Inr md'"
        by (simp add: process_header_def Let_def)
      then have "prefix ?md1 md'"
        by (rule for_each_process_li_prefix)
      then show ?thesis by (auto elim: prefixE)
    qed
  qed
qed

lemma for_each_process_header_prefix:
  "for_each (process_header get parse urljoin soup) md hs = Inr md' \<Longrightarrow> prefix md md'"
  using for_each_prefix [where body = "process_header get parse urljoin soup"]
    process_header_prefix
  by blast

text \<open>
  Claim C6, as amended. Whenever \<^verbatim>\<open>scrape_from_url\<close> returns a document, its first
  fragment is the level-1 title line, and the title is the stripped text of the first
  \<^verbatim>\<open>h1\<close> of the page, or the default \<^verbatim>\<open>GeeksForGeeks Guide\<close> when the page has no
  \<^verbatim>\<open>h1\<close>.
\<close>

theorem scrape_from_url_title:
  assumes "scrape_from_url get parse urljoin url = Inr (Some md)"
  shows "\<exists>html soup rest. fetch_page get url = Inr (Some html) \<and> parse html = Inr soup
           \<and> md = (''# '' @ (case find_tag ''h1'' soup of
                               None \<Rightarrow> ''GeeksForGeeks Guide''
                             | Some page_title \<Rightarrow> get_text_strip page_title) @ nl) # rest"
proof -
  from assms obtain html soup topic_section
    where f: "fetch_page get url = Inr (Some html)" and p: "parse html = Inr soup"
      and l: "for_each (process_header get parse urljoin soup) [''# '' @ main_title soup @ nl]
                (section_find_all [''h2'', ''h3''] soup topic_section) = Inr md"
    by (auto simp: scrape_from_url_def split: sum.splits option.splits if_splits)
  from l have "prefix [''# '' @ main_title soup @ nl] md"
    by (rule for_each_process_header_prefix)
  then obtain rest where "md = (''# '' @ main_title soup @ nl) # rest"
    by (auto elim: prefixE)
  with f p show ?thesis
    by (auto simp: main_title_def)
qed

lemma scrape_from_url_example:
  "scrape_from_url ex_get ex_parse ex_urljoin ''https://www.geeksforgeeks.org/greedy-algorithms/''
     = Inr (Some [''# GeeksForGeeks Guide'' @ nl,
                  nl @ ''## Greedy'' @ nl,
                  nl @ ''### A'' @ nl, nl @ ''---'' @ nl,
                  nl @ ''### B'' @ nl, nl @ ''Hello'' @ nl, nl @ ''---'' @ nl,
                  nl @ ''### C'' @ nl, nl @ ''---'' @ nl])"
  by code_simp

theorem scrape_from_url_title_witness:
  "(\<exists>md. scrape_from_url ex_get ex_parse ex_urljoin
            ''https://www.geeksforgeeks.org/greedy-algorithms/'' = Inr (Some md))
   \<and> (\<exists>html. fetch_page ex_get ''https://www.geeksforgeeks.org/greedy-algorithms/''
               = Inr (Some html))"
proof -
  from scrape_from_url_title [OF scrape_from_url_example]
  obtain html where "fetch_page ex_get ''https://www.geeksforgeeks.org/greedy-algorithms/''
                       = Inr (Some html)"
    by blast
  then show ?thesis by (simp add: scrape_from_url_example)
qed

text \<open>
  The example topic page has no \<^verbatim>\<open>h1\<close>; the title line of its document is not
  \<^verbatim>\<open># Untitled\<close>.
\<close>

theorem default_title_counterexample:
  "find_tag ''h1'' ex_topic_page = None
   \<and> map_sum id (map_option hd)
       (scrape_from_url ex_get ex_parse ex_urljoin
          ''https://www.geeksforgeeks.org/greedy-algorithms/'')
       = Inr (Some (''# GeeksForGeeks Guide'' @ nl))
   \<and> map_sum id (map_option hd)
       (scrape_from_url ex_get ex_parse ex_urljoin
          ''https://www.geeksforgeeks.org/greedy-algorithms/'')
       \<noteq> Inr (Some (''# Untitled'' @ nl))"
  by code_simp





subsection \<open>The Section Locator\<close>

lemma scan_headers_None:
  "(\<forall>(q, h)\<in>set hs. \<not> header_has_links soup n q) \<Longrightarrow> scan_headers soup n hs = None"
  by (induction hs) auto

lemma scan_headers_append:
  "scan_headers soup n (xs @ ys) =
     (case scan_headers soup n xs of
        Some r \<Rightarrow> Some r
      | None \<Rightarrow> scan_headers soup n ys)"
  by (induction xs) auto

lemma scan_header_tags_h2_h3:
  "scan_header_tags soup n [''h2'', ''h3'']
     = scan_headers soup n (soup_find_all [''h2''] soup @ soup_find_all [''h3''] soup)"
  by (simp add: scan_headers_append split: option.split)




lemma header_has_links_iff:
  "header_has_links soup n p \<longleftrightarrow>
     (\<exists>ul. find_next ''ul'' soup p = Some ul \<and> n \<le> length (find_all [''a''] ul))"
  by (simp add: header_has_links_def split: option.split)



text \<open>
  Claim C3, as amended. The locator looks at all \<^verbatim>\<open>h2\<close> headings in document order
  and then at all \<^verbatim>\<open>h3\<close> headings in document order. The first heading in that order
  whose next \<^verbatim>\<open>ul\<close> has three links or more decides: the locator returns its parent,
  whatever the other two heuristics would find.
\<close>

theorem find_topic_section_header_first:
  assumes "soup_find_all [''h2''] soup @ soup_find_all [''h3''] soup = before @ (p, header) # rest"
    and "find_next ''ul'' soup p = Some ul" and "3 \<le> length (find_all [''a''] ul)"
    and "\<forall>(q, h)\<in>set before.
           \<forall>ul. find_next ''ul'' soup q = Some ul \<longrightarrow> length (find_all [''a''] ul) < 3"
  shows "find_topic_section soup = Some (parent p)"
proof -
  have b: "\<forall>(q, h)\<in>set before. \<not> header_has_links soup 3 q"
    using assms(4) by (fastforce simp: header_has_links_iff)
  have "scan_headers soup 3 before = None"
    using b by (rule scan_headers_None)
  moreover have "header_has_links soup 3 p"
    using assms(2,3) by (simp add: header_has_links_iff)
  ultimately have "scan_headers soup 3 (before @ (p, header) # rest) = Some (parent p)"
    by (simp add: scan_headers_append)
  then have "scan_header_tags soup 3 [''h2'', ''h3''] = Some (parent p)"
    by (simp only: scan_header_tags_h2_h3 assms(1))
  then show ?thesis
    by (simp only: find_topic_section_def patterns_def scan_patterns.simps try_pattern.simps
          option.case)
qed

theorem find_topic_section_header_first_witness:
  "3 \<le> length (find_all [''a'']
           (Tag ''ul'' None None [ex_item ''/f'' ''F'', ex_item ''/g'' ''G'', ex_item ''/h'' ''H'']))
   \<and> find_topic_section ex_h3_first_page = Some [2]"
proof -
  let ?intro = "Tag ''h2'' None None [NavigableString ''Intro'']"
  let ?first = "Tag ''h3'' None None [NavigableString ''First'']"
  let ?second = "Tag ''h2'' None None [NavigableString ''Second'']"
  let ?ul0 = "Tag ''ul'' None None [ex_item ''/a'' ''A'', ex_item ''/b'' ''B'']"
  let ?ul2 = "Tag ''ul'' None None [ex_item ''/f'' ''F'', ex_item ''/g'' ''G'', ex_item ''/h'' ''H'']"
  have a1: "soup_find_all [''h2''] ex_h3_first_page @ soup_find_all [''h3''] ex_h3_first_page
              = [([0, 0], ?intro)] @ ([2, 0], ?second) # [([1, 0], ?first)]"
    by code_simp
  have a2: "find_next ''ul'' ex_h3_first_page [2, 0] = Some ?ul2"
    by code_simp
  have a3: "3 \<le> length (find_all [''a''] ?ul2)"
    by code_simp
  have n0: "find_next ''ul'' ex_h3_first_page [0, 0] = Some ?ul0"
    by code_simp
  have u0: "length (find_all [''a''] ?ul0) = 2"
    by code_simp
  have a4: "\<forall>(q, h)\<in>set [([0, 0], ?intro)].
              \<forall>ul. find_next ''ul'' ex_h3_first_page q = Some ul \<longrightarrow> length (find_all [''a''] ul) < 3"
    by (simp add: n0 u0)
  have p: "parent [2, 0] = [2]"
    by (simp add: parent_def)
  from find_topic_section_header_first [OF a1 a2 a3 a4] a3 p show ?thesis
    by simp
qed

text \<open>
  On the page with three blocks the first heading in document order with a list of three
  links is the \<^verbatim>\<open>h3\<close> of the second block; the locator returns the third block, whose
  heading is an \<^verbatim>\<open>h2\<close>.
\<close>

theorem header_order_counterexample:
  "spec_header_led ex_h3_first_page = Some [1]
   \<and> find_topic_section ex_h3_first_page = Some [2]"
  by code_simp

end
